theory Spec2Isabelle
  imports Complex_Main "HOL-Library.Char_ord" "HOL-Library.List_Lexorder"
begin

section \<open>Exceptions and results\<close>

text \<open>
  Python exceptions are values. An exception object has a class and the mutable attribute
  \<^verbatim>\<open>__context__\<close> (written by \<^verbatim>\<open>MultiStream._athrow\<close>). The classes are the ones the
  code names or that the standard library raises on the paths modelled here, among them
  \<^verbatim>\<open>CancelledError\<close>, and two families for whatever an observer's own code raises:
  \<open>AppError n\<close>, whose instances are truthy as exceptions are unless their class says
  otherwise, and \<open>FalsyError n\<close>, a class that defines \<^verbatim>\<open>__bool__\<close> or \<^verbatim>\<open>__len__\<close> so that
  its instances are falsy.
\<close>

datatype exn_class =
  ObserverClosedError | CancelledError | ValueError | TypeError | AssertionError
  | AppError nat | FalsyError nat

datatype exn = Exn (exn_class: exn_class) (exn_context: "exn option")

text \<open>What a call hands back to its caller: a returned value or a raised exception.\<close>

datatype 'a result = Returned 'a | Raised exn

text \<open>\<^verbatim>\<open>isinstance(exc, ObserverClosedError)\<close>\<close>

definition is_ObserverClosedError :: "exn \<Rightarrow> bool" where
  "is_ObserverClosedError exc = (exn_class exc = ObserverClosedError)"

text \<open>The truth value of an exception object, as \<^verbatim>\<open>if exc\<close> reads it.\<close>

fun class_truthy :: "exn_class \<Rightarrow> bool" where
  "class_truthy (FalsyError n) = False"
| "class_truthy _ = True"

definition truthy :: "exn \<Rightarrow> bool" where
  "truthy exc = class_truthy (exn_class exc)"


section \<open>aioreactive/operator/interface/max.py\<close>

text \<open>
  The values a stream carries, as far as the builtin types go: \<^verbatim>\<open>None\<close>, \<^verbatim>\<open>int\<close>,
  \<^verbatim>\<open>float\<close> (the finite ones, ordered as the reals they denote) and \<^verbatim>\<open>str\<close> (ordered
  lexicographically by code point).
\<close>

datatype pyval = PyNone | PyInt int | PyFloat real | PyStr string

text \<open>
  Python 3's \<^verbatim>\<open>a > b\<close> on these types: numbers compare with numbers, strings with
  strings, and every other pairing (any pairing with \<^verbatim>\<open>None\<close> among them) raises
  \<^verbatim>\<open>TypeError\<close>.
\<close>

fun py_gt :: "pyval \<Rightarrow> pyval \<Rightarrow> exn + bool" where
  "py_gt (PyInt a) (PyInt b) = Inr (a > b)"
| "py_gt (PyInt a) (PyFloat b) = Inr (of_int a > b)"
| "py_gt (PyFloat a) (PyInt b) = Inr (a > of_int b)"
| "py_gt (PyFloat a) (PyFloat b) = Inr (a > b)"
| "py_gt (PyStr a) (PyStr b) = Inr (a > b)"
| "py_gt _ _ = Inl (Exn TypeError None)"

text \<open>\<^verbatim>\<open>Max.Stream\<close>: the only attribute the class adds is \<^verbatim>\<open>_max\<close>.\<close>

record max_stream =
  max' :: pyval

text \<open>\<^verbatim>\<open>Max.Stream.__init__\<close>: \<^verbatim>\<open>self._max = None\<close>\<close>

definition Max_Stream_init :: max_stream where
  "Max_Stream_init = \<lparr>max' = PyNone\<rparr>"

text \<open>
  \<^verbatim>\<open>Max.Stream.__asend__\<close>: \<^verbatim>\<open>if value > self._max: self._max = value\<close>. The comparison
  comes first; when it raises, the assignment is not reached.
\<close>

definition Max_Stream_asend :: "max_stream \<Rightarrow> pyval \<Rightarrow> unit result \<times> max_stream" where
  "Max_Stream_asend self v =
     (case py_gt v (max' self) of
        Inl exc \<Rightarrow> (Raised exc, self)
      | Inr b \<Rightarrow> (Returned (), if b then self\<lparr>max' := v\<rparr> else self))"

text \<open>
  A producer delivering a sequence of values, one \<^verbatim>\<open>__asend__\<close> call per value, whatever
  each call does: the outcomes in order, and the stream afterwards.
\<close>

fun Max_Stream_deliver :: "max_stream \<Rightarrow> pyval list \<Rightarrow> unit result list \<times> max_stream" where
  "Max_Stream_deliver self [] = ([], self)"
| "Max_Stream_deliver self (v # vs) =
     (case Max_Stream_asend self v of
        (r, self1) \<Rightarrow> (case Max_Stream_deliver self1 vs of (rs, self2) \<Rightarrow> (r # rs, self2)))"

section \<open>aRx/streams/multi_stream.py\<close>

subsection \<open>What the hub works with\<close>

text \<open>
  Modelled from the spec: the \<^verbatim>\<open>Namespace\<close> class (\<^verbatim>\<open>aRx/namespace.py\<close>) is not among the
  sources. It is the immutable causality record of section 3: the kind of participant, its
  identity, the action, and the optional link to the namespace of the upstream cause.
\<close>

datatype namespace =
  Namespace (ns_type: string) (ns_ref: nat) (ns_action: string) (previous: "namespace option")

definition is_root :: "namespace \<Rightarrow> bool" where
  "is_root n = (previous n = None)"

text \<open>
  An attached observer as the hub sees it (\<^verbatim>\<open>ObserverProtocol\<close> is not among the sources):
  its identity, its \<^verbatim>\<open>closed\<close> attribute, and what awaiting each of its coroutines does,
  \<open>None\<close> when the coroutine completes and \<open>Some exc\<close> when it raises \<open>exc\<close>; a delivery
  that is cancelled raises \<^verbatim>\<open>CancelledError\<close>. \<open>dispose\<close> is the outcome of awaiting
  \<^verbatim>\<open>observe(hub, obv).dispose()\<close>, an exception of the teardown itself when there is one.
\<close>

record 'v observer =
  ident :: nat
  closed :: bool
  asend :: "'v \<Rightarrow> namespace \<Rightarrow> exn option"
  athrow :: "exn \<Rightarrow> namespace \<Rightarrow> exn option"
  dispose :: "exn option"

text \<open>The calls the hub makes on its members, in the order it makes them.\<close>

datatype 'v call = Asend nat 'v namespace | Athrow nat exn namespace | Dispose nat

text \<open>
  The context dictionary given to \<^verbatim>\<open>loop.call_exception_handler\<close>: the message (without
  the prefix that names the stream), the exception, and the member whose future it was.
\<close>

datatype report = Report (message: string) (exception: exn) (future: "nat option")

text \<open>
  The task made by \<^verbatim>\<open>loop.create_task(self._clear_closed_observers())\<close>: not yet run, or
  finished. A task object is truthy in both states.
\<close>

datatype task = Pending | Finished

text \<open>
  The hub: \<^verbatim>\<open>_observers\<close> (a set; the list is its iteration order, one entry per
  identity), \<^verbatim>\<open>_disposables\<close>, the \<^verbatim>\<open>closed\<close> attribute it has as an observer, and the
  two things its effects go to: the contexts handed to the loop's exception handler, and
  the calls made on members. \<open>set_order\<close> is the environment's part in iterating the set
  \<open>done\<close> of a fan-out: the place it gives to the future of each member.
\<close>

record 'v MultiStream =
  observers :: "'v observer list"
  disposables :: "task option"
  stream_closed :: bool
  handled :: "report list"
  calls :: "'v call list"
  set_order :: "nat \<Rightarrow> nat"

definition call_exception_handler :: "report \<Rightarrow> 'v MultiStream \<Rightarrow> 'v MultiStream" where
  "call_exception_handler ctx self = self\<lparr>handled := handled self @ [ctx]\<rparr>"

text \<open>
  A future that \<^verbatim>\<open>asyncio.wait\<close> gives back as done: the member it was made for and how
  its coroutine ended, \<open>None\<close> for a return and \<open>Some exc\<close> for a raise.
\<close>

type_synonym fut = "nat \<times> exn option"

text \<open>
  A task whose coroutine ends by raising \<^verbatim>\<open>CancelledError\<close> is a cancelled task.
\<close>

definition cancelled :: "exn option \<Rightarrow> bool" where
  "cancelled r = (case r of None \<Rightarrow> False | Some exc \<Rightarrow> exn_class exc = CancelledError)"

text \<open>
  \<^verbatim>\<open>fut.exception()\<close> on a done future: it raises \<^verbatim>\<open>CancelledError\<close> when the future was
  cancelled, and otherwise returns the exception set on the future, or \<^verbatim>\<open>None\<close>.
\<close>

definition fut_exception :: "exn option \<Rightarrow> exn option result" where
  "fut_exception r = (if cancelled r then Raised (Exn CancelledError None) else Returned r)"

text \<open>
  \<^verbatim>\<open>for fut in done\<close>: \<open>done\<close> is a set, iterated in an order of its own. The futures are
  taken by the place \<open>set_order\<close> gives to their member (a stable sort: futures of the
  same place keep the order of the tuple). Every future is taken once, whatever the places.
\<close>

definition done_order :: "'v MultiStream \<Rightarrow> fut list \<Rightarrow> fut list" where
  "done_order self fs = sort_key (\<lambda>f. set_order self (fst f)) fs"

text \<open>
  \<^verbatim>\<open>asyncio.wait(fs, return_when=ALL_COMPLETED)\<close> with no timeout, as in the Python
  versions the library was written for, where the coroutines given are wrapped in tasks.
  The collection must not be empty: \<^verbatim>\<open>if not fs: raise ValueError\<close>. Otherwise every
  awaitable is run to its end, whatever the others do, and all of them come back in
  \<open>done\<close>, none in \<open>pending\<close>.
\<close>

definition wait :: "fut list \<Rightarrow> (fut list \<times> fut list) result" where
  "wait fs = (if fs = [] then Raised (Exn ValueError None) else Returned (fs, []))"

subsection \<open>Membership\<close>

text \<open>\<^verbatim>\<open>__observe__\<close>: \<^verbatim>\<open>self._observers.add(observer)\<close>\<close>

definition MultiStream_observe :: "'v MultiStream \<Rightarrow> 'v observer \<Rightarrow> 'v MultiStream" where
  "MultiStream_observe self observer =
     (if ident observer \<in> set (map ident (observers self)) then self
      else self\<lparr>observers := observers self @ [observer]\<rparr>)"

text \<open>\<^verbatim>\<open>__dispose__\<close>: \<^verbatim>\<open>self._observers.remove(observer)\<close> with \<^verbatim>\<open>KeyError\<close> suppressed\<close>

definition MultiStream_dispose :: "'v MultiStream \<Rightarrow> 'v observer \<Rightarrow> 'v MultiStream" where
  "MultiStream_dispose self observer =
     self\<lparr>observers := filter (\<lambda>obv. ident obv \<noteq> ident observer) (observers self)\<rparr>"



subsection \<open>The cleanup sweep\<close>



subsection \<open>Fan-out\<close>

text \<open>
  The loops over \<open>done\<close>. \<^verbatim>\<open>exc = fut.exception()\<close> comes first and may raise, which
  ends the loop and the call. Then \<^verbatim>\<open>if exc and not isinstance(exc, ObserverClosedError)\<close>:
  an exception that is truthy and not an \<^verbatim>\<open>ObserverClosedError\<close> goes to the exception
  handler; \<^verbatim>\<open>_athrow\<close> sets its \<^verbatim>\<open>__context__\<close> to the broadcast error first.
\<close>

fun report_asend :: "fut list \<Rightarrow> 'v MultiStream \<Rightarrow> unit result \<times> 'v MultiStream" where
  "report_asend [] self = (Returned (), self)"
| "report_asend ((i, r) # done) self =
     (case fut_exception r of
        Raised cancel \<Rightarrow> (Raised cancel, self)
      | Returned None \<Rightarrow> report_asend done self
      | Returned (Some exc) \<Rightarrow>
          report_asend done
            (if truthy exc \<and> \<not> is_ObserverClosedError exc
             then call_exception_handler
                    (Report ''Unhandled exception while attempting to propagate data through observers''
                       exc (Some i)) self
             else self))"

fun report_athrow :: "exn \<Rightarrow> fut list \<Rightarrow> 'v MultiStream \<Rightarrow> unit result \<times> 'v MultiStream" where
  "report_athrow main_exc [] self = (Returned (), self)"
| "report_athrow main_exc ((i, r) # done) self =
     (case fut_exception r of
        Raised cancel \<Rightarrow> (Raised cancel, self)
      | Returned None \<Rightarrow> report_athrow main_exc done self
      | Returned (Some exc) \<Rightarrow>
          report_athrow main_exc done
            (if truthy exc \<and> \<not> is_ObserverClosedError exc
             then call_exception_handler
                    (Report ''Unhandled exception while attempting to propagate exception through observers''
                       (Exn (exn_class exc) (Some main_exc)) (Some i)) self
             else self))"

text \<open>
  \<^verbatim>\<open>if not self._disposables: self._disposables = self.loop.create_task(...)\<close>. The new
  task is only enqueued; it runs after the call has returned.
\<close>

definition enqueue_clearing :: "'v MultiStream \<Rightarrow> 'v MultiStream" where
  "enqueue_clearing self =
     (if disposables self = None then self\<lparr>disposables := Some Pending\<rparr> else self)"

text \<open>
  The members a fan-out makes coroutines for: \<^verbatim>\<open>for obv in self._observers if not obv.closed\<close>,
  read when the tuple is built.
\<close>

definition open_members :: "'v MultiStream \<Rightarrow> 'v observer list" where
  "open_members self = filter (\<lambda>obv. \<not> closed obv) (observers self)"

text \<open>
  \<^verbatim>\<open>_asend\<close>. Each coroutine is \<^verbatim>\<open>obv.asend(value, namespace)\<close>, with the value and the
  namespace the hub was given. An exception raised by the wait or inside the loop leaves the
  call at once: the clearing is not enqueued.
\<close>

definition MultiStream_asend ::
  "'v MultiStream \<Rightarrow> 'v \<Rightarrow> namespace \<Rightarrow> unit result \<times> 'v MultiStream" where
  "MultiStream_asend self v ns =
     (if observers self = [] then (Returned (), self)
      else
        let members = open_members self
        in case wait (map (\<lambda>obv. (ident obv, asend obv v ns)) members) of
             Raised exc \<Rightarrow> (Raised exc, self)
           | Returned (done, pending) \<Rightarrow>
               let self1 = self\<lparr>calls := calls self @ map (\<lambda>obv. Asend (ident obv) v ns) members\<rparr>
               in if pending \<noteq> [] then (Raised (Exn AssertionError None), self1)
                  else (case report_asend (done_order self done) self1 of
                          (Raised exc, self2) \<Rightarrow> (Raised exc, self2)
                        | (Returned _, self2) \<Rightarrow> (Returned (), enqueue_clearing self2)))"

text \<open>
  \<^verbatim>\<open>_athrow\<close>: the same with \<^verbatim>\<open>athrow\<close>, under \<^verbatim>\<open>if self._observers\<close>; then
  \<^verbatim>\<open>return False\<close>, which an exception raised before it keeps out of reach.
\<close>

definition MultiStream_athrow ::
  "'v MultiStream \<Rightarrow> exn \<Rightarrow> namespace \<Rightarrow> bool result \<times> 'v MultiStream" where
  "MultiStream_athrow self main_exc ns =
     (if observers self \<noteq> [] then
        let members = open_members self
        in case wait (map (\<lambda>obv. (ident obv, athrow obv main_exc ns)) members) of
             Raised exc \<Rightarrow> (Raised exc, self)
           | Returned (done, pending) \<Rightarrow>
               let self1 = self\<lparr>calls := calls self @ map (\<lambda>obv. Athrow (ident obv) main_exc ns) members\<rparr>
               in if pending \<noteq> [] then (Raised (Exn AssertionError None), self1)
                  else (case report_athrow main_exc (done_order self done) self1 of
                          (Raised exc, self2) \<Rightarrow> (Raised exc, self2)
                        | (Returned _, self2) \<Rightarrow> (Returned False, enqueue_clearing self2))
      else (Returned False, self))"

subsection \<open>Closing\<close>




subsection \<open>Vocabulary for the claims\<close>

text \<open>
  The namespace a recorded call carried, and whether that namespace is a fresh one chained
  to \<open>ns\<close>, that is, one whose \<^verbatim>\<open>previous\<close> is \<open>ns\<close>.
\<close>

fun call_namespace :: "'v call \<Rightarrow> namespace option" where
  "call_namespace (Asend i v ns) = Some ns"
| "call_namespace (Athrow i exc ns) = Some ns"
| "call_namespace (Dispose i) = None"

definition chained_to :: "namespace \<Rightarrow> 'v call \<Rightarrow> bool" where
  "chained_to ns c = (case call_namespace c of None \<Rightarrow> False | Some n \<Rightarrow> previous n = Some ns)"



subsection \<open>Concrete hubs\<close>

text \<open>
  Four observers: \<open>obv_A\<close> has closed already; \<open>obv_B\<close> is open and its deliveries raise an
  application error; \<open>obv_C\<close> is open and accepts; \<open>obv_D\<close> is open when the tuple is built and
  raises \<^verbatim>\<open>ObserverClosedError\<close> at delivery. The disposals of \<open>obv_B\<close> and \<open>obv_D\<close> fail.
\<close>

definition obv_A :: "pyval observer" where
  "obv_A = \<lparr>ident = 1, closed = True,
             asend = (\<lambda>_ _. Some (Exn ObserverClosedError None)),
             athrow = (\<lambda>_ _. Some (Exn ObserverClosedError None)),
             dispose = None\<rparr>"

definition obv_B :: "pyval observer" where
  "obv_B = \<lparr>ident = 2, closed = False,
             asend = (\<lambda>_ _. Some (Exn (AppError 7) None)),
             athrow = (\<lambda>_ _. Some (Exn (AppError 8) None)),
             dispose = Some (Exn (AppError 1) None)\<rparr>"

definition obv_C :: "pyval observer" where
  "obv_C = \<lparr>ident = 3, closed = False,
             asend = (\<lambda>_ _. None), athrow = (\<lambda>_ _. None), dispose = None\<rparr>"

definition obv_D :: "pyval observer" where
  "obv_D = \<lparr>ident = 4, closed = False,
             asend = (\<lambda>_ _. Some (Exn ObserverClosedError None)),
             athrow = (\<lambda>_ _. Some (Exn ObserverClosedError None)),
             dispose = Some (Exn (AppError 2) None)\<rparr>"



text \<open>A fresh hub with the given members; its sets are iterated in the order of the identities.\<close>

definition hub_of :: "pyval observer list \<Rightarrow> pyval MultiStream" where
  "hub_of obvs = \<lparr>observers = obvs, disposables = None, stream_closed = False,
                   handled = [], calls = [], set_order = (\<lambda>i. i)\<rparr>"

definition ns0 :: namespace where
  "ns0 = Namespace ''MultiStream'' 0 ''asend'' None"




section \<open>aRx/operations/pipe_op.py\<close>

text \<open>
  A pipe node: the observable and the transformer it was built with (the pair its base
  class \<^verbatim>\<open>observe\<close> keeps) and \<^verbatim>\<open>_previous\<close>. Observables, transformers and observers are
  named by numbers.
\<close>

datatype pipe = Pipe (observable: nat) (transformer: nat) (previous_pipe: "pipe option")

text \<open>\<^verbatim>\<open>__or__\<close>: \<^verbatim>\<open>pipe(self._transformer, transformer, previous_pipe=self)\<close>\<close>

definition pipe_or :: "pipe \<Rightarrow> nat \<Rightarrow> pipe" where
  "pipe_or self t = Pipe (transformer self) t (Some self)"

text \<open>
  What entering and exiting do to the world: the observation of an observable by an
  observer is entered, or exited with the exception (if any) the scope is left with.
\<close>

datatype scope_event = Enter nat nat | Exit nat nat "exn option"

text \<open>
  Modelled from the spec: the base class \<^verbatim>\<open>observe\<close> (\<^verbatim>\<open>aRx/operations/observe_op.py\<close>) is
  not among the sources. By section 4.2 its \<^verbatim>\<open>__aenter__\<close> acquires by attaching the observer
  to the observable and its \<^verbatim>\<open>__aexit__\<close> releases by disposing. Either may raise; which
  ones do is the parameter \<open>raises\<close>. The attempt is recorded in both cases.
\<close>

definition observe_aenter ::
  "(scope_event \<Rightarrow> exn option) \<Rightarrow> nat \<Rightarrow> nat \<Rightarrow> scope_event list \<Rightarrow> unit result \<times> scope_event list" where
  "observe_aenter raises obs obv evs =
     (case raises (Enter obs obv) of
        Some exc \<Rightarrow> (Raised exc, evs @ [Enter obs obv])
      | None \<Rightarrow> (Returned (), evs @ [Enter obs obv]))"

definition observe_aexit ::
  "(scope_event \<Rightarrow> exn option) \<Rightarrow> nat \<Rightarrow> nat \<Rightarrow> exn option \<Rightarrow> scope_event list \<Rightarrow>
   unit result \<times> scope_event list" where
  "observe_aexit raises obs obv exc_value evs =
     (case raises (Exit obs obv exc_value) of
        Some exc \<Rightarrow> (Raised exc, evs @ [Exit obs obv exc_value])
      | None \<Rightarrow> (Returned (), evs @ [Exit obs obv exc_value]))"

text \<open>
  \<^verbatim>\<open>pipe.__aenter__\<close>: \<^verbatim>\<open>await super().__aenter__()\<close>, then
  \<^verbatim>\<open>if self._previous: await self._previous.__aenter__()\<close>, then
  \<^verbatim>\<open>return self._transformer\<close>. A pipe object is truthy. An exception ends the call
  where it is raised.
\<close>

fun pipe_aenter ::
  "(scope_event \<Rightarrow> exn option) \<Rightarrow> pipe \<Rightarrow> scope_event list \<Rightarrow> nat result \<times> scope_event list" where
  "pipe_aenter raises (Pipe obs tr prev) evs =
     (case observe_aenter raises obs tr evs of
        (Raised exc, evs1) \<Rightarrow> (Raised exc, evs1)
      | (Returned _, evs1) \<Rightarrow>
          (case prev of
             None \<Rightarrow> (Returned tr, evs1)
           | Some p \<Rightarrow>
               (case pipe_aenter raises p evs1 of
                  (Raised exc, evs2) \<Rightarrow> (Raised exc, evs2)
                | (Returned _, evs2) \<Rightarrow> (Returned tr, evs2))))"

text \<open>
  \<^verbatim>\<open>pipe.__aexit__\<close>: \<^verbatim>\<open>if self._previous is not None: await self._previous.__aexit__(...)\<close>,
  then \<^verbatim>\<open>await super().__aexit__(...)\<close>. The three arguments travel together and are
  passed on unchanged; \<open>exc_value\<close> stands for them.
\<close>

fun pipe_aexit ::
  "(scope_event \<Rightarrow> exn option) \<Rightarrow> pipe \<Rightarrow> exn option \<Rightarrow> scope_event list \<Rightarrow>
   unit result \<times> scope_event list" where
  "pipe_aexit raises (Pipe obs tr prev) exc_value evs =
     (case (case prev of
              None \<Rightarrow> (Returned (), evs)
            | Some p \<Rightarrow> pipe_aexit raises p exc_value evs) of
        (Raised exc, evs1) \<Rightarrow> (Raised exc, evs1)
      | (Returned _, evs1) \<Rightarrow> observe_aexit raises obs tr exc_value evs1)"

text \<open>
  The observations of a chain, from a node back to the head of the chain: the node's own
  first, the one at the original source last.
\<close>

fun observations :: "pipe \<Rightarrow> (nat \<times> nat) list" where
  "observations (Pipe obs tr prev) =
     (obs, tr) # (case prev of None \<Rightarrow> [] | Some p \<Rightarrow> observations p)"

text \<open>No observation raises on entry or exit.\<close>

definition no_raise :: "scope_event \<Rightarrow> exn option" where
  "no_raise = (\<lambda>_. None)"

text \<open>\<open>precedes a b xs\<close>: some occurrence of \<open>a\<close> in \<open>xs\<close> has a \<open>b\<close> after it.\<close>

fun precedes :: "'a \<Rightarrow> 'a \<Rightarrow> 'a list \<Rightarrow> bool" where
  "precedes a b [] = False"
| "precedes a b (x # xs) = ((x = a \<and> b \<in> set xs) \<or> precedes a b xs)"

text \<open>The chain source \<open>0\<close>, then the transformers \<open>1\<close>, \<open>2\<close> and \<open>3\<close>.\<close>

definition chain3 :: pipe where
  "chain3 = pipe_or (pipe_or (Pipe 0 1 None) 2) 3"

text \<open>The exit of the observation at the source \<open>0\<close> raises; nothing else does.\<close>

definition raise_at_source :: "scope_event \<Rightarrow> exn option" where
  "raise_at_source ev = (if ev = Exit 0 1 None then Some (Exn (AppError 4) None) else None)"


section \<open>src/aRx/observable/unit.py\<close>

text \<open>
  The value a \<^verbatim>\<open>Unit\<close> holds: a plain value, or (\<^verbatim>\<open>isfuture(value)\<close>) a future, which
  yields a value or raises when awaited. The namespace of this version is a UUID.
\<close>

datatype 'v unit_value = Plain 'v | Future "'v result"

type_synonym uuid = nat

text \<open>
  The observer as the worker sees it (\<^verbatim>\<open>abstract/observer.py\<close> is not among the sources):
  the attributes \<^verbatim>\<open>closed\<close> and \<^verbatim>\<open>keep_alive\<close>, and what awaiting each of its methods
  does: the exception it raises, if any, and for a delivery whether the observer is closed
  afterwards. \<^verbatim>\<open>keep_alive\<close> is set when the observer is made and no call changes it.
\<close>

record 'v unit_observer =
  observer_closed :: bool
  keep_alive :: bool
  on_asend :: "'v \<Rightarrow> exn option \<times> bool"
  on_araise :: "exn \<Rightarrow> uuid \<Rightarrow> exn option \<times> bool"
  on_aclose :: "exn option"

text \<open>
  The calls the worker makes on the observer. The namespace of \<open>CallAsend\<close> is \<open>None\<close> when
  the call passes no namespace argument.
\<close>

datatype 'v observer_call = CallAsend 'v "uuid option" | CallAraise exn uuid | CallAclose

text \<open>
  The first statement of \<^verbatim>\<open>Unit._worker\<close>: a future is awaited; when that raises,
  \<^verbatim>\<open>observer.araise(ex, namespace)\<close>, otherwise \<^verbatim>\<open>observer.asend(value)\<close>; a plain value
  goes to \<^verbatim>\<open>observer.asend(value)\<close>. The result: the call made, what it raised, and the
  observer afterwards.
\<close>

definition Unit_deliver ::
  "'v unit_value \<Rightarrow> 'v unit_observer \<Rightarrow> uuid \<Rightarrow>
   'v observer_call list \<times> exn option \<times> 'v unit_observer" where
  "Unit_deliver val observer namespace =
     (case val of
        Future (Raised ex) \<Rightarrow>
          (case on_araise observer ex namespace of
             (r, c) \<Rightarrow> ([CallAraise ex namespace], r, observer\<lparr>observer_closed := c\<rparr>))
      | Future (Returned v) \<Rightarrow>
          (case on_asend observer v of
             (r, c) \<Rightarrow> ([CallAsend v None], r, observer\<lparr>observer_closed := c\<rparr>))
      | Plain v \<Rightarrow>
          (case on_asend observer v of
             (r, c) \<Rightarrow> ([CallAsend v None], r, observer\<lparr>observer_closed := c\<rparr>)))"

text \<open>
  \<^verbatim>\<open>Unit._worker\<close>: an exception of the delivery leaves the worker; otherwise
  \<^verbatim>\<open>if not (observer.closed or observer.keep_alive): await observer.aclose()\<close>.
\<close>

definition Unit_worker ::
  "'v unit_value \<Rightarrow> 'v unit_observer \<Rightarrow> uuid \<Rightarrow>
   unit result \<times> 'v unit_observer \<times> 'v observer_call list" where
  "Unit_worker val observer namespace =
     (case Unit_deliver val observer namespace of
        (cs, Some exc, observer1) \<Rightarrow> (Raised exc, observer1, cs)
      | (cs, None, observer1) \<Rightarrow>
          if \<not> (observer_closed observer1 \<or> keep_alive observer1)
          then (case on_aclose observer1 of
                  Some exc \<Rightarrow> (Raised exc, observer1, cs @ [CallAclose])
                | None \<Rightarrow> (Returned (), observer1\<lparr>observer_closed := True\<rparr>, cs @ [CallAclose]))
          else (Returned (), observer1, cs))"

text \<open>
  \<^verbatim>\<open>Unit\<close>: the value and \<^verbatim>\<open>self.namespace = uuid4()\<close>. \<^verbatim>\<open>__observe__\<close> makes a task of
  the worker with them; the result is that task run to its end.
\<close>

record 'v Unit =
  Unit_value :: "'v unit_value"
  Unit_namespace :: uuid

definition Unit_observe ::
  "'v Unit \<Rightarrow> 'v unit_observer \<Rightarrow> unit result \<times> 'v unit_observer \<times> 'v observer_call list" where
  "Unit_observe self observer = Unit_worker (Unit_value self) observer (Unit_namespace self)"

text \<open>The namespace a recorded call carried, if any.\<close>

fun call_uuid :: "'v observer_call \<Rightarrow> uuid option" where
  "call_uuid (CallAsend v n) = n"
| "call_uuid (CallAraise ex n) = Some n"
| "call_uuid CallAclose = None"

text \<open>Two open observers that accept everything, one with \<^verbatim>\<open>keep_alive\<close> and one without.\<close>

definition obs_keep :: "pyval unit_observer" where
  "obs_keep = \<lparr>observer_closed = False, keep_alive = True,
               on_asend = (\<lambda>_. (None, False)), on_araise = (\<lambda>_ _. (None, False)),
               on_aclose = None\<rparr>"

definition obs_once :: "pyval unit_observer" where
  "obs_once = \<lparr>observer_closed = False, keep_alive = False,
               on_asend = (\<lambda>_. (None, False)), on_araise = (\<lambda>_ _. (None, False)),
               on_aclose = None\<rparr>"


section \<open>Properties of Max.Stream\<close>

lemma py_gt_None: "py_gt v PyNone = Inl (Exn TypeError None)"
  by (cases v) simp_all

lemma Max_Stream_asend_None:
  "max' self = PyNone \<Longrightarrow> Max_Stream_asend self v = (Raised (Exn TypeError None), self)"
  by (simp add: Max_Stream_asend_def py_gt_None)

lemma Max_Stream_deliver_None:
  "max' self = PyNone \<Longrightarrow>
   Max_Stream_deliver self vs = (map (\<lambda>_. Raised (Exn TypeError None)) vs, self)"
  by (induction vs) (simp_all add: Max_Stream_asend_None)

text \<open>
  Once the maximum is a number the comparison works and the update happens: the branch that
  the initial \<^verbatim>\<open>None\<close> keeps out of reach.
\<close>

lemma Max_Stream_asend_updates:
  "Max_Stream_asend \<lparr>max' = PyInt 3\<rparr> (PyInt 5) = (Returned (), \<lparr>max' = PyInt 5\<rparr>)"
  by (simp add: Max_Stream_asend_def)

text \<open>
  C9. A fresh \<^verbatim>\<open>Max.Stream\<close> holds \<^verbatim>\<open>None\<close> as its maximum, so the first \<^verbatim>\<open>__asend__\<close>
  compares the value with \<^verbatim>\<open>None\<close>: for every value of the builtin types, an \<^verbatim>\<open>int\<close>,
  a \<^verbatim>\<open>float\<close> or a \<^verbatim>\<open>str\<close> among them, the comparison raises \<^verbatim>\<open>TypeError\<close>, the
  call raises it to its caller and the stream is left as it was. The maximum is then still
  \<^verbatim>\<open>None\<close>, so every later delivery raises as well and the maximum is never updated.
\<close>

theorem Max_Stream_first_asend_raises:
  "max' Max_Stream_init = PyNone \<and>
   py_gt (PyInt i) (max' Max_Stream_init) = Inl (Exn TypeError None) \<and>
   py_gt (PyFloat r) (max' Max_Stream_init) = Inl (Exn TypeError None) \<and>
   py_gt (PyStr s) (max' Max_Stream_init) = Inl (Exn TypeError None) \<and>
   Max_Stream_asend Max_Stream_init v = (Raised (Exn TypeError None), Max_Stream_init) \<and>
   Max_Stream_deliver Max_Stream_init (v # vs) =
     (map (\<lambda>_. Raised (Exn TypeError None)) (v # vs), Max_Stream_init) \<and>
   max' (snd (Max_Stream_deliver Max_Stream_init (v # vs))) = PyNone"
proof -
  have init: "max' Max_Stream_init = PyNone"
    by (simp add: Max_Stream_init_def)
  have d: "Max_Stream_deliver Max_Stream_init (v # vs) =
           (map (\<lambda>_. Raised (Exn TypeError None)) (v # vs), Max_Stream_init)"
    by (rule Max_Stream_deliver_None [OF init])
  have "max' (snd (Max_Stream_deliver Max_Stream_init (v # vs))) = PyNone"
    by (simp only: d snd_conv init)
  with init d Max_Stream_asend_None [OF init, of v] show ?thesis
    by (simp add: py_gt_None)
qed

theorem Max_Stream_first_asend_raises_witness:
  "Max_Stream_asend Max_Stream_init (PyInt 7) = (Raised (Exn TypeError None), Max_Stream_init) \<and>
   max' (snd (Max_Stream_deliver Max_Stream_init [PyInt 7, PyStr ''a'', PyFloat 2])) = PyNone"
  using Max_Stream_first_asend_raises [of 7 2 "''a''" "PyInt 7" "[PyStr ''a'', PyFloat 2]"]
  by blast

section \<open>Properties of MultiStream\<close>

lemmas examples = obv_A_def obv_B_def obv_C_def obv_D_def hub_of_def ns0_def

subsection \<open>The loops and the fan-out\<close>

lemma fut_exception_Returned: "\<not> cancelled r \<Longrightarrow> fut_exception r = Returned r"
  by (simp add: fut_exception_def)

lemma fut_exception_Raised: "cancelled r \<Longrightarrow> fut_exception r = Raised (Exn CancelledError None)"
  by (simp add: fut_exception_def)

lemma set_done_order: "set (done_order self fs) = set fs"
  by (simp add: done_order_def)

lemma report_asend_None:
  "report_asend ((i, None) # done) self = report_asend done self"
  by (simp add: fut_exception_def cancelled_def)

lemma report_asend_Some:
  "exn_class exc \<noteq> CancelledError \<Longrightarrow>
   report_asend ((i, Some exc) # done) self =
     report_asend done
       (if truthy exc \<and> \<not> is_ObserverClosedError exc
        then call_exception_handler
               (Report ''Unhandled exception while attempting to propagate data through observers''
                  exc (Some i)) self
        else self)"
  by (simp add: fut_exception_def cancelled_def)

lemma report_asend_cancelled:
  "exn_class exc = CancelledError \<Longrightarrow>
   report_asend ((i, Some exc) # done) self = (Raised (Exn CancelledError None), self)"
  by (simp add: fut_exception_def cancelled_def)

lemma report_athrow_None:
  "report_athrow m ((i, None) # done) self = report_athrow m done self"
  by (simp add: fut_exception_def cancelled_def)

lemma report_athrow_Some:
  "exn_class exc \<noteq> CancelledError \<Longrightarrow>
   report_athrow m ((i, Some exc) # done) self =
     report_athrow m done
       (if truthy exc \<and> \<not> is_ObserverClosedError exc
        then call_exception_handler
               (Report ''Unhandled exception while attempting to propagate exception through observers''
                  (Exn (exn_class exc) (Some m)) (Some i)) self
        else self)"
  by (simp add: fut_exception_def cancelled_def)

lemma report_athrow_cancelled:
  "exn_class exc = CancelledError \<Longrightarrow>
   report_athrow m ((i, Some exc) # done) self = (Raised (Exn CancelledError None), self)"
  by (simp add: fut_exception_def cancelled_def)

declare report_asend.simps(2) [simp del] report_athrow.simps(2) [simp del]

lemma report_asend_fields:
  "observers (snd (report_asend done self)) = observers self \<and>
   disposables (snd (report_asend done self)) = disposables self \<and>
   stream_closed (snd (report_asend done self)) = stream_closed self \<and>
   calls (snd (report_asend done self)) = calls self"
proof (induction "done" arbitrary: self)
  case Nil
  show ?case by simp
next
  case (Cons f fs)
  obtain i r where f: "f = (i, r)" by (cases f)
  show ?case
  proof (cases r)
    case None
    then show ?thesis by (simp add: f report_asend_None Cons.IH)
  next
    case (Some exc)
    then show ?thesis
      by (cases "exn_class exc = CancelledError")
         (simp_all add: f report_asend_Some report_asend_cancelled Cons.IH call_exception_handler_def)
  qed
qed

lemma report_athrow_fields:
  "observers (snd (report_athrow m done self)) = observers self \<and>
   disposables (snd (report_athrow m done self)) = disposables self \<and>
   stream_closed (snd (report_athrow m done self)) = stream_closed self \<and>
   calls (snd (report_athrow m done self)) = calls self"
proof (induction "done" arbitrary: self)
  case Nil
  show ?case by simp
next
  case (Cons f fs)
  obtain i r where f: "f = (i, r)" by (cases f)
  show ?case
  proof (cases r)
    case None
    then show ?thesis by (simp add: f report_athrow_None Cons.IH)
  next
    case (Some exc)
    then show ?thesis
      by (cases "exn_class exc = CancelledError")
         (simp_all add: f report_athrow_Some report_athrow_cancelled Cons.IH call_exception_handler_def)
  qed
qed


lemma report_athrow_quiet:
  assumes "list_all (\<lambda>f. \<not> cancelled (snd f)) done"
  shows "fst (report_athrow m done self) = Returned () \<and>
     handled (snd (report_athrow m done self)) =
       handled self @
       List.map_filter
         (\<lambda>f. case snd f of
                None \<Rightarrow> None
              | Some exc \<Rightarrow>
                  if truthy exc \<and> \<not> is_ObserverClosedError exc
                  then Some (Report ''Unhandled exception while attempting to propagate exception through observers''
                               (Exn (exn_class exc) (Some m)) (Some (fst f)))
                  else None) done"
  using assms
proof (induction "done" arbitrary: self)
  case Nil
  show ?case by (simp add: List.map_filter_simps)
next
  case (Cons f fs)
  obtain i r where f: "f = (i, r)" by (cases f)
  from Cons.prems have nc: "\<not> cancelled r" and rest: "list_all (\<lambda>f. \<not> cancelled (snd f)) fs"
    by (simp_all add: f)
  show ?case
  proof (cases r)
    case None
    then show ?thesis
      by (simp add: f report_athrow_None Cons.IH [OF rest] List.map_filter_simps)
  next
    case (Some exc)
    with nc have "exn_class exc \<noteq> CancelledError" by (simp add: cancelled_def)
    with Some show ?thesis
      by (simp add: f report_athrow_Some Cons.IH [OF rest] List.map_filter_simps
            call_exception_handler_def)
  qed
qed

lemma enqueue_clearing_fields:
  "observers (enqueue_clearing self) = observers self \<and>
   stream_closed (enqueue_clearing self) = stream_closed self \<and>
   handled (enqueue_clearing self) = handled self \<and>
   calls (enqueue_clearing self) = calls self"
  by (simp add: enqueue_clearing_def)

text \<open>The futures of a fan-out, in the order the loop takes them.\<close>

lemma MultiStream_asend_open:
  assumes "open_members self \<noteq> []"
  shows "MultiStream_asend self v ns =
    (case fst (report_asend
                 (done_order self (map (\<lambda>obv. (ident obv, asend obv v ns)) (open_members self)))
                 (self\<lparr>calls := calls self @
                    map (\<lambda>obv. Asend (ident obv) v ns) (open_members self)\<rparr>)) of
       Raised exc \<Rightarrow>
         (Raised exc,
          snd (report_asend
                 (done_order self (map (\<lambda>obv. (ident obv, asend obv v ns)) (open_members self)))
                 (self\<lparr>calls := calls self @
                    map (\<lambda>obv. Asend (ident obv) v ns) (open_members self)\<rparr>)))
     | Returned u \<Rightarrow>
         (Returned (),
          enqueue_clearing
            (snd (report_asend
                    (done_order self (map (\<lambda>obv. (ident obv, asend obv v ns)) (open_members self)))
                    (self\<lparr>calls := calls self @
                       map (\<lambda>obv. Asend (ident obv) v ns) (open_members self)\<rparr>)))))"
proof -
  from assms have "observers self \<noteq> []" by (auto simp add: open_members_def)
  with assms show ?thesis
    by (simp add: MultiStream_asend_def wait_def Let_def split: prod.split result.split)
qed

lemma MultiStream_asend_all_closed:
  assumes "observers self \<noteq> []" "open_members self = []"
  shows "MultiStream_asend self v ns = (Raised (Exn ValueError None), self)"
  using assms by (simp add: MultiStream_asend_def wait_def Let_def)

lemma MultiStream_athrow_open:
  assumes "open_members self \<noteq> []"
  shows "MultiStream_athrow self m ns =
    (case fst (report_athrow m
                 (done_order self (map (\<lambda>obv. (ident obv, athrow obv m ns)) (open_members self)))
                 (self\<lparr>calls := calls self @
                    map (\<lambda>obv. Athrow (ident obv) m ns) (open_members self)\<rparr>)) of
       Raised exc \<Rightarrow>
         (Raised exc,
          snd (report_athrow m
                 (done_order self (map (\<lambda>obv. (ident obv, athrow obv m ns)) (open_members self)))
                 (self\<lparr>calls := calls self @
                    map (\<lambda>obv. Athrow (ident obv) m ns) (open_members self)\<rparr>)))
     | Returned u \<Rightarrow>
         (Returned False,
          enqueue_clearing
            (snd (report_athrow m
                    (done_order self (map (\<lambda>obv. (ident obv, athrow obv m ns)) (open_members self)))
                    (self\<lparr>calls := calls self @
                       map (\<lambda>obv. Athrow (ident obv) m ns) (open_members self)\<rparr>)))))"
proof -
  from assms have "observers self \<noteq> []" by (auto simp add: open_members_def)
  with assms show ?thesis
    by (simp add: MultiStream_athrow_def wait_def Let_def split: prod.split result.split)
qed

lemma MultiStream_athrow_all_closed:
  assumes "observers self \<noteq> []" "open_members self = []"
  shows "MultiStream_athrow self m ns = (Raised (Exn ValueError None), self)"
  using assms by (simp add: MultiStream_athrow_def wait_def Let_def)

text \<open>The members are called in every case, also when the loop is left by an exception.\<close>

lemma MultiStream_asend_calls:
  assumes "observers self \<noteq> []"
  shows "calls (snd (MultiStream_asend self v ns)) =
           calls self @ map (\<lambda>obv. Asend (ident obv) v ns) (open_members self)"
proof (cases "open_members self = []")
  case True
  then show ?thesis
    by (simp add: MultiStream_asend_all_closed [OF assms True])
next
  case False
  show ?thesis
    by (simp add: MultiStream_asend_open [OF False] enqueue_clearing_fields report_asend_fields
          split: result.split)
qed


text \<open>A fan-out in which no delivery ends cancelled.\<close>

lemma done_order_quiet:
  assumes "list_all (\<lambda>obv. \<not> cancelled (out obv)) ms"
  shows "list_all (\<lambda>f. \<not> cancelled (snd f)) (done_order self (map (\<lambda>obv. (ident obv, out obv)) ms))"
  using assms by (auto simp add: list_all_iff set_done_order)


lemma MultiStream_athrow_quiet:
  assumes "open_members self \<noteq> []"
    and "list_all (\<lambda>obv. \<not> cancelled (athrow obv m ns)) (open_members self)"
  shows "fst (MultiStream_athrow self m ns) = Returned False \<and>
     handled (snd (MultiStream_athrow self m ns)) =
       handled self @
       List.map_filter
         (\<lambda>f. case snd f of
                None \<Rightarrow> None
              | Some exc \<Rightarrow>
                  if truthy exc \<and> \<not> is_ObserverClosedError exc
                  then Some (Report ''Unhandled exception while attempting to propagate exception through observers''
                               (Exn (exn_class exc) (Some m)) (Some (fst f)))
                  else None)
         (done_order self (map (\<lambda>obv. (ident obv, athrow obv m ns)) (open_members self)))"
  using report_athrow_quiet [OF done_order_quiet [OF assms(2), of self],
      of m "self\<lparr>calls := calls self @ map (\<lambda>obv. Athrow (ident obv) m ns) (open_members self)\<rparr>"]
  by (simp add: MultiStream_athrow_open [OF assms(1)] enqueue_clearing_fields)

subsection \<open>Disposal\<close>

lemma MultiStream_dispose_fields:
  "calls (MultiStream_dispose self obv) = calls self \<and>
   handled (MultiStream_dispose self obv) = handled self \<and>
   disposables (MultiStream_dispose self obv) = disposables self \<and>
   stream_closed (MultiStream_dispose self obv) = stream_closed self"
  by (simp add: MultiStream_dispose_def)









subsection \<open>Claims\<close>









text \<open>
  C3. With an empty observer set \<^verbatim>\<open>_asend\<close> returns at once and successfully, for any value
  and namespace: no member is called, nothing is reported, and the hub is exactly as it was.
\<close>

theorem MultiStream_asend_hot_drop:
  assumes "observers self = []"
  shows "MultiStream_asend self v ns = (Returned (), self) \<and>
         calls (snd (MultiStream_asend self v ns)) = calls self \<and>
         handled (snd (MultiStream_asend self v ns)) = handled self"
  using assms by (simp add: MultiStream_asend_def)

theorem MultiStream_asend_hot_drop_witness:
  "observers (hub_of []) = [] \<and>
   MultiStream_asend (hub_of []) (PyStr ''test'') ns0 = (Returned (), hub_of [])"
  using MultiStream_asend_hot_drop [of "hub_of []" "PyStr ''test''" ns0]
  by (simp add: hub_of_def)

text \<open>
  C2. \<^verbatim>\<open>_athrow\<close> is to return \<^verbatim>\<open>False\<close> for every error and namespace. With an observer
  set that is not empty and whose members have all closed (the lazy cleanup keeps them in
  the set), here the one observer \<open>obv_A\<close> attached by \<^verbatim>\<open>__observe__\<close>, the tuple given to
  \<^verbatim>\<open>asyncio.wait\<close> is empty and the call raises \<^verbatim>\<open>ValueError\<close> to the producer instead.
\<close>

theorem MultiStream_athrow_all_closed_raises:
  "MultiStream_observe (hub_of []) obv_A = hub_of [obv_A] \<and>
   closed obv_A \<and>
   observers (hub_of [obv_A]) \<noteq> [] \<and>
   MultiStream_athrow (hub_of [obv_A]) (Exn (AppError 9) None) ns0 =
     (Raised (Exn ValueError None), hub_of [obv_A]) \<and>
   fst (MultiStream_athrow (hub_of [obv_A]) (Exn (AppError 9) None) ns0) \<noteq> Returned False"
  by (simp add: MultiStream_athrow_def MultiStream_observe_def open_members_def wait_def examples)

text \<open>
  What does hold of \<^verbatim>\<open>_athrow\<close>: it returns \<^verbatim>\<open>False\<close> when the set is empty or has an open
  member and no delivery ends cancelled, an empty set leaves the hub untouched, and the
  hub's own \<^verbatim>\<open>closed\<close> is never written.
\<close>

lemma MultiStream_athrow_returns_False:
  assumes "observers self = [] \<or> open_members self \<noteq> []"
    and "list_all (\<lambda>obv. \<not> cancelled (athrow obv main_exc ns)) (open_members self)"
  shows "fst (MultiStream_athrow self main_exc ns) = Returned False"
proof (cases "open_members self = []")
  case True
  with assms(1) have "observers self = []" by simp
  then show ?thesis by (simp add: MultiStream_athrow_def)
next
  case False
  then show ?thesis by (simp add: MultiStream_athrow_quiet [OF False assms(2)])
qed

lemma MultiStream_athrow_empty:
  "observers self = [] \<Longrightarrow> MultiStream_athrow self main_exc ns = (Returned False, self)"
  by (simp add: MultiStream_athrow_def)

lemma MultiStream_athrow_stream_closed:
  "stream_closed (snd (MultiStream_athrow self main_exc ns)) = stream_closed self"
proof (cases "observers self = []")
  case True
  then show ?thesis by (simp add: MultiStream_athrow_def)
next
  case ne: False
  show ?thesis
  proof (cases "open_members self = []")
    case True
    then show ?thesis by (simp add: MultiStream_athrow_all_closed [OF ne True])
  next
    case False
    show ?thesis
      by (simp add: MultiStream_athrow_open [OF False] enqueue_clearing_fields report_athrow_fields
            split: result.split)
  qed
qed

text \<open>
  C4, as stated: every member's \<^verbatim>\<open>asend\<close> gets a fresh namespace chained to the caller's.
  With two open members and the root namespace \<open>ns0\<close>, both calls carry \<open>ns0\<close> itself,
  whose \<^verbatim>\<open>previous\<close> is not \<open>ns0\<close>.
\<close>

theorem MultiStream_asend_namespace_counterexample:
  "observers (hub_of [obv_B, obv_C]) \<noteq> [] \<and>
   calls (snd (MultiStream_asend (hub_of [obv_B, obv_C]) (PyInt 5) ns0)) =
     [Asend 2 (PyInt 5) ns0, Asend 3 (PyInt 5) ns0] \<and>
   \<not> list_all (chained_to ns0)
         (calls (snd (MultiStream_asend (hub_of [obv_B, obv_C]) (PyInt 5) ns0)))"
proof -
  have c: "calls (snd (MultiStream_asend (hub_of [obv_B, obv_C]) (PyInt 5) ns0)) =
             [Asend 2 (PyInt 5) ns0, Asend 3 (PyInt 5) ns0]"
    by (simp add: MultiStream_asend_calls open_members_def obv_B_def obv_C_def hub_of_def)
  have n: "\<not> list_all (chained_to ns0) [Asend 2 (PyInt 5) ns0, Asend 3 (PyInt 5) ns0]"
    by (simp add: chained_to_def ns0_def)
  from c n show ?thesis
    by (simp add: hub_of_def)
qed

text \<open>
  C4, amended. A fan-out by \<^verbatim>\<open>_asend\<close> over a non-empty observer set invokes the
  \<^verbatim>\<open>asend\<close> of each open member with the value and with the very namespace the caller
  passed in, the same for every member; the hub builds no namespace of its own.
\<close>

theorem MultiStream_asend_passes_namespace:
  assumes "observers self \<noteq> []"
  shows "calls (snd (MultiStream_asend self v ns)) =
           calls self @ map (\<lambda>obv. Asend (ident obv) v ns) (open_members self) \<and>
         list_all (\<lambda>c. call_namespace c = Some ns)
           (drop (length (calls self)) (calls (snd (MultiStream_asend self v ns))))"
proof -
  have c: "calls (snd (MultiStream_asend self v ns)) =
           calls self @ map (\<lambda>obv. Asend (ident obv) v ns) (open_members self)"
    by (rule MultiStream_asend_calls [OF assms])
  have "list_all (\<lambda>c. call_namespace c = Some ns)
          (map (\<lambda>obv. Asend (ident obv) v ns) (open_members self))"
    by (simp add: list_all_iff)
  with c show ?thesis by simp
qed

theorem MultiStream_asend_passes_namespace_witness:
  "observers (hub_of [obv_A, obv_C, obv_D]) \<noteq> [] \<and>
   calls (snd (MultiStream_asend (hub_of [obv_A, obv_C, obv_D]) (PyStr ''test'') ns0)) =
     [Asend 3 (PyStr ''test'') ns0, Asend 4 (PyStr ''test'') ns0]"
  using MultiStream_asend_passes_namespace [of "hub_of [obv_A, obv_C, obv_D]" "PyStr ''test''" ns0]
  by (simp add: examples open_members_def)

subsection \<open>Closing the hub\<close>







section \<open>Properties of pipe\<close>

lemma observe_aenter_snd: "snd (observe_aenter raises obs obv evs) = evs @ [Enter obs obv]"
  by (simp add: observe_aenter_def split: option.split)

lemma observe_aexit_snd: "snd (observe_aexit raises obs obv x evs) = evs @ [Exit obs obv x]"
  by (simp add: observe_aexit_def split: option.split)

lemma observe_aenter_quiet:
  "raises (Enter obs obv) = None \<Longrightarrow>
   observe_aenter raises obs obv evs = (Returned (), evs @ [Enter obs obv])"
  by (simp add: observe_aenter_def)

lemma observe_aexit_quiet:
  "raises (Exit obs obv x) = None \<Longrightarrow>
   observe_aexit raises obs obv x evs = (Returned (), evs @ [Exit obs obv x])"
  by (simp add: observe_aexit_def)

lemma pipe_aenter_None:
  "pipe_aenter raises (Pipe obs tr None) evs =
     (case fst (observe_aenter raises obs tr evs) of
        Raised exc \<Rightarrow> (Raised exc, evs @ [Enter obs tr])
      | Returned _ \<Rightarrow> (Returned tr, evs @ [Enter obs tr]))"
  by (simp add: observe_aenter_def split: option.split)

lemma pipe_aenter_Some:
  "pipe_aenter raises (Pipe obs tr (Some q)) evs =
     (case fst (observe_aenter raises obs tr evs) of
        Raised exc \<Rightarrow> (Raised exc, evs @ [Enter obs tr])
      | Returned _ \<Rightarrow>
          (case fst (pipe_aenter raises q (evs @ [Enter obs tr])) of
             Raised exc \<Rightarrow> (Raised exc, snd (pipe_aenter raises q (evs @ [Enter obs tr])))
           | Returned _ \<Rightarrow> (Returned tr, snd (pipe_aenter raises q (evs @ [Enter obs tr])))))"
  by (simp add: observe_aenter_def split: option.split prod.split result.split)

lemma pipe_aexit_None:
  "pipe_aexit raises (Pipe obs tr None) x evs = observe_aexit raises obs tr x evs"
  by simp

lemma pipe_aexit_Some:
  "pipe_aexit raises (Pipe obs tr (Some q)) x evs =
     (case fst (pipe_aexit raises q x evs) of
        Raised exc \<Rightarrow> (Raised exc, snd (pipe_aexit raises q x evs))
      | Returned _ \<Rightarrow> observe_aexit raises obs tr x (snd (pipe_aexit raises q x evs)))"
  by (simp split: prod.split result.split)

declare pipe_aenter.simps [simp del] pipe_aexit.simps [simp del]

lemma pipe_aenter_quiet:
  assumes "\<And>ev. raises ev = None"
  shows "pipe_aenter raises p evs =
     (Returned (transformer p), evs @ map (\<lambda>(a, b). Enter a b) (observations p))"
proof (induction p arbitrary: evs rule: observations.induct)
  case (1 obs tr prev)
  have o: "fst (observe_aenter raises obs tr evs) = Returned ()"
    by (simp add: observe_aenter_quiet assms)
  show ?case
  proof (cases prev)
    case None
    with o show ?thesis by (simp add: pipe_aenter_None)
  next
    case (Some q)
    have "pipe_aenter raises q (evs @ [Enter obs tr]) =
            (Returned (transformer q),
             (evs @ [Enter obs tr]) @ map (\<lambda>(a, b). Enter a b) (observations q))"
      by (rule "1.IH" [OF Some])
    with o Some show ?thesis by (simp add: pipe_aenter_Some)
  qed
qed

lemma pipe_aexit_quiet:
  assumes "\<And>ev. raises ev = None"
  shows "pipe_aexit raises p x evs =
     (Returned (), evs @ map (\<lambda>(a, b). Exit a b x) (rev (observations p)))"
proof (induction p arbitrary: evs rule: observations.induct)
  case (1 obs tr prev)
  show ?case
  proof (cases prev)
    case None
    then show ?thesis by (simp add: pipe_aexit_None observe_aexit_quiet assms)
  next
    case (Some q)
    have "pipe_aexit raises q x evs =
            (Returned (), evs @ map (\<lambda>(a, b). Exit a b x) (rev (observations q)))"
      by (rule "1.IH" [OF Some])
    moreover have "\<And>es. observe_aexit raises obs tr x es = (Returned (), es @ [Exit obs tr x])"
      by (rule observe_aexit_quiet) (rule assms)
    ultimately show ?thesis using Some by (simp add: pipe_aexit_Some)
  qed
qed

lemma pipe_aenter_no_raise:
  "pipe_aenter no_raise p evs =
     (Returned (transformer p), evs @ map (\<lambda>(a, b). Enter a b) (observations p))"
  by (rule pipe_aenter_quiet) (simp add: no_raise_def)

lemma pipe_aexit_no_raise:
  "pipe_aexit no_raise p x evs =
     (Returned (), evs @ map (\<lambda>(a, b). Exit a b x) (rev (observations p)))"
  by (rule pipe_aexit_quiet) (simp add: no_raise_def)

lemma pipe_aenter_prefix:
  "\<exists>k. 0 < k \<and> k \<le> length (observations p) \<and>
       snd (pipe_aenter raises p evs) = evs @ take k (map (\<lambda>(a, b). Enter a b) (observations p))"
proof (induction p arbitrary: evs rule: observations.induct)
  case (1 obs tr prev)
  have one: "evs @ [Enter obs tr] =
             evs @ take 1 (map (\<lambda>(a, b). Enter a b) (observations (Pipe obs tr prev)))"
    by simp
  show ?case
  proof (cases prev)
    case None
    have "snd (pipe_aenter raises (Pipe obs tr None) evs) = evs @ [Enter obs tr]"
      by (simp add: pipe_aenter_None split: result.split)
    with None one show ?thesis
      by (intro exI [of _ 1]) simp
  next
    case (Some q)
    from "1.IH" [OF Some, of "evs @ [Enter obs tr]"]
    obtain k where k: "0 < k" "k \<le> length (observations q)"
      "snd (pipe_aenter raises q (evs @ [Enter obs tr])) =
         (evs @ [Enter obs tr]) @ take k (map (\<lambda>(a, b). Enter a b) (observations q))"
      by blast
    show ?thesis
    proof (cases "fst (observe_aenter raises obs tr evs)")
      case (Raised exc)
      then have "snd (pipe_aenter raises (Pipe obs tr (Some q)) evs) = evs @ [Enter obs tr]"
        by (simp add: pipe_aenter_Some)
      with Some one show ?thesis
        by (intro exI [of _ 1]) simp
    next
      case (Returned u)
      then have "snd (pipe_aenter raises (Pipe obs tr (Some q)) evs) =
                 snd (pipe_aenter raises q (evs @ [Enter obs tr]))"
        by (simp add: pipe_aenter_Some split: result.split)
      with k have "snd (pipe_aenter raises (Pipe obs tr (Some q)) evs) =
            evs @ take (Suc k) (map (\<lambda>(a, b). Enter a b) (observations (Pipe obs tr (Some q))))"
        by simp
      with k Some show ?thesis
        by (intro exI [of _ "Suc k"]) simp
    qed
  qed
qed

lemma pipe_aexit_prefix:
  "\<exists>k. 0 < k \<and> k \<le> length (observations p) \<and>
       snd (pipe_aexit raises p x evs) =
         evs @ take k (map (\<lambda>(a, b). Exit a b x) (rev (observations p))) \<and>
       (fst (pipe_aexit raises p x evs) = Returned () \<longrightarrow> k = length (observations p))"
proof (induction p arbitrary: evs rule: observations.induct)
  case (1 obs tr prev)
  show ?case
  proof (cases prev)
    case None
    have "snd (pipe_aexit raises (Pipe obs tr None) x evs) = evs @ [Exit obs tr x]"
      by (simp add: pipe_aexit_None observe_aexit_snd)
    with None show ?thesis
      by (intro exI [of _ 1]) simp
  next
    case (Some q)
    from "1.IH" [OF Some, of evs]
    obtain k where k: "0 < k" "k \<le> length (observations q)"
      "snd (pipe_aexit raises q x evs) =
         evs @ take k (map (\<lambda>(a, b). Exit a b x) (rev (observations q)))"
      "fst (pipe_aexit raises q x evs) = Returned () \<longrightarrow> k = length (observations q)"
      by blast
    show ?thesis
    proof (cases "fst (pipe_aexit raises q x evs)")
      case (Raised exc)
      then have "pipe_aexit raises (Pipe obs tr (Some q)) x evs =
                 (Raised exc, snd (pipe_aexit raises q x evs))"
        by (simp add: pipe_aexit_Some)
      with k Some show ?thesis
        by (intro exI [of _ k]) simp
    next
      case (Returned u)
      with k have full: "snd (pipe_aexit raises q x evs) =
                         evs @ map (\<lambda>(a, b). Exit a b x) (rev (observations q))"
        by simp
      from Returned have "snd (pipe_aexit raises (Pipe obs tr (Some q)) x evs) =
                 snd (pipe_aexit raises q x evs) @ [Exit obs tr x]"
        by (simp add: pipe_aexit_Some observe_aexit_snd)
      with full have "snd (pipe_aexit raises (Pipe obs tr (Some q)) x evs) =
            evs @ take (Suc (length (observations q)))
                    (map (\<lambda>(a, b). Exit a b x) (rev (observations (Pipe obs tr (Some q)))))"
        by simp
      with Some show ?thesis
        by (intro exI [of _ "Suc (length (observations q))"]) simp
    qed
  qed
qed

text \<open>
  C6. Entering a pipe node enters its own observation first and then, when that did not
  raise and there is a previous pipe, enters the previous pipe; exiting exits the previous
  pipe first and then, when that did not raise, the node's own observation. So, whatever
  raises, the observations of a chain are entered in the order from the node back to the
  head and exited in the reverse order, up to the first exception; and when nothing raises
  all of them are, \<^verbatim>\<open>__aenter__\<close> returning the node's transformer.
\<close>

theorem pipe_enter_exit_order:
  "snd (pipe_aenter raises (Pipe obs tr None) evs) = evs @ [Enter obs tr] \<and>
   (fst (observe_aenter raises obs tr evs) = Returned () \<longrightarrow>
      snd (pipe_aenter raises (Pipe obs tr (Some q)) evs) =
        snd (pipe_aenter raises q (evs @ [Enter obs tr]))) \<and>
   snd (pipe_aexit raises (Pipe obs tr None) x evs) = evs @ [Exit obs tr x] \<and>
   (fst (pipe_aexit raises q x evs) = Returned () \<longrightarrow>
      snd (pipe_aexit raises (Pipe obs tr (Some q)) x evs) =
        snd (pipe_aexit raises q x evs) @ [Exit obs tr x]) \<and>
   (\<exists>k>0. snd (pipe_aenter raises p evs) =
            evs @ take k (map (\<lambda>(a, b). Enter a b) (observations p))) \<and>
   (\<exists>k>0. snd (pipe_aexit raises p x evs) =
            evs @ take k (map (\<lambda>(a, b). Exit a b x) (rev (observations p)))) \<and>
   pipe_aenter no_raise p evs =
     (Returned (transformer p), evs @ map (\<lambda>(a, b). Enter a b) (observations p)) \<and>
   pipe_aexit no_raise p x evs =
     (Returned (), evs @ map (\<lambda>(a, b). Exit a b x) (rev (observations p)))"
proof -
  have 1: "snd (pipe_aenter raises (Pipe obs tr None) evs) = evs @ [Enter obs tr]"
    by (simp add: pipe_aenter_None split: result.split)
  have 2: "fst (observe_aenter raises obs tr evs) = Returned () \<longrightarrow>
      snd (pipe_aenter raises (Pipe obs tr (Some q)) evs) =
        snd (pipe_aenter raises q (evs @ [Enter obs tr]))"
    by (simp add: pipe_aenter_Some split: result.split)
  have 3: "snd (pipe_aexit raises (Pipe obs tr None) x evs) = evs @ [Exit obs tr x]"
    by (simp add: pipe_aexit_None observe_aexit_snd)
  have 4: "fst (pipe_aexit raises q x evs) = Returned () \<longrightarrow>
      snd (pipe_aexit raises (Pipe obs tr (Some q)) x evs) =
        snd (pipe_aexit raises q x evs) @ [Exit obs tr x]"
    by (simp add: pipe_aexit_Some observe_aexit_snd)
  have 5: "\<exists>k>0. snd (pipe_aenter raises p evs) =
            evs @ take k (map (\<lambda>(a, b). Enter a b) (observations p))"
    using pipe_aenter_prefix [of p raises evs] by blast
  have 6: "\<exists>k>0. snd (pipe_aexit raises p x evs) =
            evs @ take k (map (\<lambda>(a, b). Exit a b x) (rev (observations p)))"
    using pipe_aexit_prefix [of p raises x evs] by blast
  from 1 2 3 4 5 6 pipe_aenter_no_raise [of p evs] pipe_aexit_no_raise [of p x evs]
  show ?thesis by blast
qed

theorem pipe_enter_exit_order_witness:
  "fst (observe_aenter no_raise 2 3 []) = Returned () \<and>
   fst (pipe_aexit no_raise (pipe_or (Pipe 0 1 None) 2) None []) = Returned () \<and>
   chain3 = Pipe 2 3 (Some (pipe_or (Pipe 0 1 None) 2)) \<and>
   pipe_aenter no_raise chain3 [] = (Returned 3, [Enter 2 3, Enter 1 2, Enter 0 1]) \<and>
   pipe_aexit no_raise chain3 None [] = (Returned (), [Exit 0 1 None, Exit 1 2 None, Exit 2 3 None]) \<and>
   snd (pipe_aenter no_raise chain3 []) =
     snd (pipe_aenter no_raise (pipe_or (Pipe 0 1 None) 2) [Enter 2 3]) \<and>
   snd (pipe_aexit no_raise chain3 None []) =
     snd (pipe_aexit no_raise (pipe_or (Pipe 0 1 None) 2) None []) @ [Exit 2 3 None]"
proof -
  have c: "chain3 = Pipe 2 3 (Some (pipe_or (Pipe 0 1 None) 2))"
    by (simp add: chain3_def pipe_or_def)
  have e: "fst (observe_aenter no_raise 2 3 []) = Returned ()"
    by (simp add: observe_aenter_def no_raise_def)
  have o: "observations chain3 = [(2, 3), (1, 2), (0, 1)]" "transformer chain3 = 3"
    by (simp_all add: c pipe_or_def)
  have q: "observations (pipe_or (Pipe 0 1 None) 2) = [(1, 2), (0, 1)]"
    by (simp add: pipe_or_def)
  from pipe_enter_exit_order
         [of no_raise 2 3 "[]" "pipe_or (Pipe 0 1 None) 2" None chain3]
  show ?thesis
    using c e by (simp add: pipe_aenter_no_raise pipe_aexit_no_raise o pipe_or_def)
qed

lemma pipe_aexit_None_fst:
  "fst (pipe_aexit r (Pipe obs tr None) x evs) =
     (case r (Exit obs tr x) of None \<Rightarrow> Returned () | Some e \<Rightarrow> Raised e)"
  by (simp add: pipe_aexit_None observe_aexit_def split: option.split)

lemma pipe_aexit_None_snd:
  "snd (pipe_aexit r (Pipe obs tr None) x evs) = evs @ [Exit obs tr x]"
  by (simp add: pipe_aexit_None observe_aexit_snd)

lemma pipe_aexit_Some_fst:
  "fst (pipe_aexit r (Pipe obs tr (Some q)) x evs) =
     (case fst (pipe_aexit r q x evs) of
        Raised e \<Rightarrow> Raised e
      | Returned u \<Rightarrow> (case r (Exit obs tr x) of None \<Rightarrow> Returned () | Some e \<Rightarrow> Raised e))"
  by (simp add: pipe_aexit_Some observe_aexit_def split: result.split option.split)

lemma pipe_aexit_Some_snd:
  "snd (pipe_aexit r (Pipe obs tr (Some q)) x evs) =
     (case fst (pipe_aexit r q x evs) of
        Raised e \<Rightarrow> snd (pipe_aexit r q x evs)
      | Returned u \<Rightarrow> snd (pipe_aexit r q x evs) @ [Exit obs tr x])"
  by (simp add: pipe_aexit_Some observe_aexit_snd split: result.split)

lemma pipe_aexit_two:
  "snd (pipe_aexit r (pipe_or (Pipe src t1 None) t2) x []) =
     (if r (Exit src t1 x) = None then [Exit src t1 x, Exit t1 t2 x] else [Exit src t1 x])"
proof (cases "r (Exit src t1 x)")
  case None
  then show ?thesis
    by (simp add: pipe_or_def pipe_aexit_Some_snd pipe_aexit_None_fst pipe_aexit_None_snd)
next
  case (Some e)
  then show ?thesis
    by (simp add: pipe_or_def pipe_aexit_Some_snd pipe_aexit_None_fst pipe_aexit_None_snd)
qed


lemma pipe_aexit_three:
  "snd (pipe_aexit r (pipe_or (pipe_or (Pipe src t1 None) t2) t3) x []) =
     (if r (Exit src t1 x) \<noteq> None then [Exit src t1 x]
      else if r (Exit t1 t2 x) \<noteq> None then [Exit src t1 x, Exit t1 t2 x]
      else [Exit src t1 x, Exit t1 t2 x, Exit t2 t3 x])"
proof (cases "r (Exit src t1 x)")
  case (Some e)
  then show ?thesis
    by (simp add: pipe_or_def pipe_aexit_Some_snd pipe_aexit_Some_fst pipe_aexit_None_fst
          pipe_aexit_None_snd)
next
  case None
  show ?thesis
  proof (cases "r (Exit t1 t2 x)")
    case (Some e)
    with None show ?thesis
      by (simp add: pipe_or_def pipe_aexit_Some_snd pipe_aexit_Some_fst pipe_aexit_None_fst
            pipe_aexit_None_snd)
  next
    case n2: None
    with None show ?thesis
      by (simp add: pipe_or_def pipe_aexit_Some_snd pipe_aexit_Some_fst pipe_aexit_None_fst
            pipe_aexit_None_snd)
  qed
qed

lemma precedes_two:
  "precedes a b [a, b]" "precedes b a [a, b] = (a = b)" "\<not> precedes b a [a]"
  by auto

text \<open>
  C7, as stated: exiting the outermost scope tears the downstream observations down before
  the upstream ones. For the source \<open>0\<close> and the transformers \<open>1\<close> and \<open>2\<close>, exiting the
  outermost pipe node exits the observation of the source by \<open>T1\<close> first and the
  observation of \<open>T1\<close> by \<open>T2\<close> after it; the downstream one does not precede the upstream
  one.
\<close>

theorem pipe_teardown_counterexample:
  "pipe_or (Pipe 0 1 None) 2 = Pipe 1 2 (Some (Pipe 0 1 None)) \<and>
   snd (pipe_aexit no_raise (pipe_or (Pipe 0 1 None) 2) None []) = [Exit 0 1 None, Exit 1 2 None] \<and>
   \<not> precedes (Exit 1 2 None) (Exit 0 1 None)
        (snd (pipe_aexit no_raise (pipe_or (Pipe 0 1 None) 2) None []))"
  by (simp only: pipe_aexit_no_raise) (simp add: pipe_or_def)

text \<open>
  C7, amended. For a chain built from pipe nodes, source then \<open>T1\<close> then \<open>T2\<close> (then \<open>T3\<close>),
  exiting the outermost pipe exits the observations upstream first: the observation at the
  source, then that of \<open>T1\<close> by \<open>T2\<close>, then that of \<open>T2\<close> by \<open>T3\<close>. An observation is exited
  only when every exit upstream of it has returned: an exit that raises leaves the
  observations downstream of it unexited. So, whatever raises, the observations exited are
  an initial part of the upstream-first order and the downstream observation is never exited
  before the upstream one; when nothing raises all of them are exited.
\<close>

theorem pipe_teardown_upstream_first:
  "snd (pipe_aexit raises (pipe_or (Pipe src t1 None) t2) x []) =
     (if raises (Exit src t1 x) = None then [Exit src t1 x, Exit t1 t2 x] else [Exit src t1 x]) \<and>
   snd (pipe_aexit raises (pipe_or (pipe_or (Pipe src t1 None) t2) t3) x []) =
     (if raises (Exit src t1 x) \<noteq> None then [Exit src t1 x]
      else if raises (Exit t1 t2 x) \<noteq> None then [Exit src t1 x, Exit t1 t2 x]
      else [Exit src t1 x, Exit t1 t2 x, Exit t2 t3 x]) \<and>
   (\<exists>k>0. snd (pipe_aexit raises p x evs) =
            evs @ take k (map (\<lambda>(a, b). Exit a b x) (rev (observations p)))) \<and>
   (raises (Exit src t1 x) = None \<longrightarrow>
      precedes (Exit src t1 x) (Exit t1 t2 x)
        (snd (pipe_aexit raises (pipe_or (Pipe src t1 None) t2) x []))) \<and>
   (Exit src t1 x \<noteq> Exit t1 t2 x \<longrightarrow>
      \<not> precedes (Exit t1 t2 x) (Exit src t1 x)
          (snd (pipe_aexit raises (pipe_or (Pipe src t1 None) t2) x []))) \<and>
   snd (pipe_aexit no_raise (pipe_or (Pipe src t1 None) t2) x []) =
     [Exit src t1 x, Exit t1 t2 x] \<and>
   precedes (Exit src t1 x) (Exit t1 t2 x)
     (snd (pipe_aexit no_raise (pipe_or (Pipe src t1 None) t2) x [])) \<and>
   snd (pipe_aexit no_raise (pipe_or (pipe_or (Pipe src t1 None) t2) t3) x []) =
     [Exit src t1 x, Exit t1 t2 x, Exit t2 t3 x]"
proof -
  have pre: "\<exists>k>0. snd (pipe_aexit raises p x evs) =
            evs @ take k (map (\<lambda>(a, b). Exit a b x) (rev (observations p)))"
    using pipe_aexit_prefix [of p raises x evs] by blast
  have fwd: "raises (Exit src t1 x) = None \<longrightarrow>
      precedes (Exit src t1 x) (Exit t1 t2 x)
        (snd (pipe_aexit raises (pipe_or (Pipe src t1 None) t2) x []))"
    by (simp only: pipe_aexit_two) (simp add: precedes_two)
  have bwd: "Exit src t1 x \<noteq> Exit t1 t2 x \<longrightarrow>
      \<not> precedes (Exit t1 t2 x) (Exit src t1 x)
          (snd (pipe_aexit raises (pipe_or (Pipe src t1 None) t2) x []))"
  proof (cases "raises (Exit src t1 x) = None")
    case True
    then show ?thesis by (simp only: pipe_aexit_two if_True precedes_two) simp
  next
    case False
    then show ?thesis by (simp only: pipe_aexit_two if_False precedes_two) simp
  qed
  have q2: "snd (pipe_aexit no_raise (pipe_or (Pipe src t1 None) t2) x []) =
     [Exit src t1 x, Exit t1 t2 x]"
    by (simp only: pipe_aexit_two) (simp add: no_raise_def)
  have q2p: "precedes (Exit src t1 x) (Exit t1 t2 x)
     (snd (pipe_aexit no_raise (pipe_or (Pipe src t1 None) t2) x []))"
    by (simp only: q2 precedes_two)
  have q3: "snd (pipe_aexit no_raise (pipe_or (pipe_or (Pipe src t1 None) t2) t3) x []) =
     [Exit src t1 x, Exit t1 t2 x, Exit t2 t3 x]"
    by (simp only: pipe_aexit_three) (simp add: no_raise_def)
  note a = pipe_aexit_two [of raises src t1 t2 x]
  note b = pipe_aexit_three [of raises src t1 t2 t3 x]
  show ?thesis
    by (rule conjI [OF a conjI [OF b conjI [OF pre conjI [OF fwd conjI [OF bwd
          conjI [OF q2 conjI [OF q2p q3]]]]]]])
qed

theorem pipe_teardown_upstream_first_witness:
  "raise_at_source (Exit 0 1 None) \<noteq> None \<and>
   snd (pipe_aexit raise_at_source chain3 None []) = [Exit 0 1 None] \<and>
   no_raise (Exit 0 1 None) = None \<and>
   precedes (Exit 0 1 None) (Exit 1 2 None)
     (snd (pipe_aexit no_raise (pipe_or (Pipe 0 1 None) 2) None [])) \<and>
   Exit 0 1 None \<noteq> Exit 1 2 None \<and>
   \<not> precedes (Exit 1 2 None) (Exit 0 1 None)
       (snd (pipe_aexit no_raise (pipe_or (Pipe 0 1 None) 2) None [])) \<and>
   snd (pipe_aexit no_raise chain3 None []) = [Exit 0 1 None, Exit 1 2 None, Exit 2 3 None]"
proof -
  have r: "raise_at_source (Exit 0 1 None) \<noteq> None"
    and n: "no_raise (Exit 0 1 None) = None"
    and d: "Exit 0 1 None \<noteq> Exit 1 2 None"
    by (simp_all add: raise_at_source_def no_raise_def)
  note boom = pipe_teardown_upstream_first [of raise_at_source 0 1 2 None 3 chain3 "[]"]
  note calm = pipe_teardown_upstream_first [of no_raise 0 1 2 None 3 chain3 "[]"]
  from boom [THEN conjunct2, THEN conjunct1] r
  have 1: "snd (pipe_aexit raise_at_source chain3 None []) = [Exit 0 1 None]"
    by (simp add: chain3_def)
  from calm [THEN conjunct2, THEN conjunct2, THEN conjunct2, THEN conjunct1] n
  have 2: "precedes (Exit 0 1 None) (Exit 1 2 None)
     (snd (pipe_aexit no_raise (pipe_or (Pipe 0 1 None) 2) None []))"
    by (rule mp)
  from calm [THEN conjunct2, THEN conjunct2, THEN conjunct2, THEN conjunct2, THEN conjunct1] d
  have 3: "\<not> precedes (Exit 1 2 None) (Exit 0 1 None)
       (snd (pipe_aexit no_raise (pipe_or (Pipe 0 1 None) 2) None []))"
    by (rule mp)
  from calm [THEN conjunct2, THEN conjunct2, THEN conjunct2, THEN conjunct2, THEN conjunct2,
      THEN conjunct2, THEN conjunct2]
  have 4: "snd (pipe_aexit no_raise chain3 None []) =
      [Exit 0 1 None, Exit 1 2 None, Exit 2 3 None]"
    by (simp only: chain3_def)
  from r n d 1 2 3 4 show ?thesis by (intro conjI)
qed


section \<open>Properties of Unit\<close>

lemma Unit_deliver_calls:
  "fst (Unit_deliver (Plain v) observer ns) = [CallAsend v None] \<and>
   fst (Unit_deliver (Future (Returned v)) observer ns) = [CallAsend v None] \<and>
   fst (Unit_deliver (Future (Raised ex)) observer ns) = [CallAraise ex ns]"
  by (simp add: Unit_deliver_def split: prod.split)

lemma Unit_deliver_no_close: "CallAclose \<notin> set (fst (Unit_deliver val observer ns))"
  by (simp add: Unit_deliver_def split: unit_value.split result.split prod.split)

lemma Unit_deliver_keep_alive:
  "keep_alive (snd (snd (Unit_deliver val observer ns))) = keep_alive observer"
  by (simp add: Unit_deliver_def split: unit_value.split result.split prod.split)

lemma Unit_worker_calls:
  "snd (snd (Unit_worker val observer ns)) =
     fst (Unit_deliver val observer ns) @
     (if fst (snd (Unit_deliver val observer ns)) = None \<and>
         \<not> observer_closed (snd (snd (Unit_deliver val observer ns))) \<and>
         \<not> keep_alive observer
      then [CallAclose] else [])"
proof -
  obtain cs r o1 where d: "Unit_deliver val observer ns = (cs, r, o1)"
    by (cases "Unit_deliver val observer ns") auto
  have "keep_alive o1 = keep_alive observer"
    using Unit_deliver_keep_alive [of val observer ns] by (simp add: d)
  then show ?thesis
    by (simp add: Unit_worker_def d split: option.split)
qed

text \<open>
  C8. When the observer's \<^verbatim>\<open>keep_alive\<close> is true the worker never calls \<^verbatim>\<open>aclose\<close>; and
  it calls \<^verbatim>\<open>aclose\<close> exactly when the delivery returned, the observer is not closed after
  it, and \<^verbatim>\<open>keep_alive\<close> is false.
\<close>

theorem Unit_worker_keep_alive:
  "(keep_alive observer \<longrightarrow> CallAclose \<notin> set (snd (snd (Unit_worker val observer ns)))) \<and>
   (CallAclose \<in> set (snd (snd (Unit_worker val observer ns))) \<longleftrightarrow>
      fst (snd (Unit_deliver val observer ns)) = None \<and>
      \<not> observer_closed (snd (snd (Unit_deliver val observer ns))) \<and>
      \<not> keep_alive observer)"
  using Unit_deliver_no_close [of val observer ns]
  by (simp add: Unit_worker_calls)

theorem Unit_worker_keep_alive_witness:
  "keep_alive obs_keep \<and>
   snd (snd (Unit_worker (Plain (PyInt 1)) obs_keep 42)) = [CallAsend (PyInt 1) None] \<and>
   \<not> keep_alive obs_once \<and>
   snd (snd (Unit_worker (Plain (PyInt 1)) obs_once 42)) = [CallAsend (PyInt 1) None, CallAclose]"
  using Unit_worker_keep_alive [of obs_keep "Plain (PyInt 1)" 42]
    Unit_worker_keep_alive [of obs_once "Plain (PyInt 1)" 42]
  by (simp add: Unit_worker_def Unit_deliver_def obs_keep_def obs_once_def)

text \<open>
  C10. For a plain value and for a future that yields a value, the first call of the worker
  is \<^verbatim>\<open>observer.asend(value)\<close> with no namespace argument, and no call it makes carries a
  namespace; for a future that raises, the first call is \<^verbatim>\<open>observer.araise(ex, namespace)\<close>
  with the namespace of the \<^verbatim>\<open>Unit\<close>.
\<close>

theorem Unit_worker_asend_without_namespace:
  "take 1 (snd (snd (Unit_worker (Plain v) observer ns))) = [CallAsend v None] \<and>
   take 1 (snd (snd (Unit_worker (Future (Returned v)) observer ns))) = [CallAsend v None] \<and>
   take 1 (snd (snd (Unit_worker (Future (Raised ex)) observer ns))) = [CallAraise ex ns] \<and>
   list_all (\<lambda>c. call_uuid c = None) (snd (snd (Unit_worker (Plain v) observer ns))) \<and>
   list_all (\<lambda>c. call_uuid c = None) (snd (snd (Unit_worker (Future (Returned v)) observer ns))) \<and>
   map call_uuid (take 1 (snd (snd (Unit_worker (Future (Raised ex)) observer ns)))) = [Some ns]"
  by (simp add: Unit_worker_calls Unit_deliver_calls)

theorem Unit_worker_asend_without_namespace_witness:
  "snd (snd (Unit_observe \<lparr>Unit_value = Plain (PyStr ''x''), Unit_namespace = 42\<rparr> obs_once)) =
     [CallAsend (PyStr ''x'') None, CallAclose] \<and>
   snd (snd (Unit_observe \<lparr>Unit_value = Future (Raised (Exn (AppError 3) None)), Unit_namespace = 42\<rparr>
               obs_once)) =
     [CallAraise (Exn (AppError 3) None) 42, CallAclose]"
  using Unit_worker_asend_without_namespace [of "PyStr ''x''" obs_once 42 "Exn (AppError 3) None"]
  by (simp add: Unit_observe_def Unit_worker_def Unit_deliver_def obs_once_def)

end
